theory Spec2Isabelle
  imports Complex_Main "HOL-Library.Word"
begin

section \<open>Shared data: bytes, JavaScript Maps, strings\<close>

type_synonym byte = "8 word"
type_synonym bytes = "byte list"

text \<open>
  A JavaScript \<open>Map\<close> keeps its entries in insertion order, and \<open>set\<close> on a key that is
  already present replaces the value in place. It is modelled as an association list
  whose keys are distinct.
\<close>

fun js_map_set :: "'k \<Rightarrow> 'v \<Rightarrow> ('k \<times> 'v) list \<Rightarrow> ('k \<times> 'v) list" where
  "js_map_set k v [] = [(k, v)]"
| "js_map_set k v ((k', v') # m) =
     (if k = k' then (k, v) # m else (k', v') # js_map_set k v m)"

definition js_map_get :: "('k \<times> 'v) list \<Rightarrow> 'k \<Rightarrow> 'v option" where
  "js_map_get m k = map_of m k"

definition js_map_has :: "('k \<times> 'v) list \<Rightarrow> 'k \<Rightarrow> bool" where
  "js_map_has m k = (map_of m k \<noteq> None)"

definition js_map_delete :: "'k \<Rightarrow> ('k \<times> 'v) list \<Rightarrow> ('k \<times> 'v) list" where
  "js_map_delete k m = filter (\<lambda>e. fst e \<noteq> k) m"

text \<open>
  \<open>String.prototype.split(sep)\<close> for a one-character separator, and
  \<open>Array.prototype.join(sep)\<close>. \<open>split\<close> never returns the empty array:
  \<open>"".split("/")\<close> is \<open>[""]\<close>.
\<close>

fun js_split :: "char \<Rightarrow> string \<Rightarrow> string list" where
  "js_split c [] = [[]]"
| "js_split c (x # xs) =
     (if x = c then [] # js_split c xs
      else (x # hd (js_split c xs)) # tl (js_split c xs))"

fun js_join :: "char \<Rightarrow> string list \<Rightarrow> string" where
  "js_join c [] = []"
| "js_join c [w] = w"
| "js_join c (w # ws) = w @ c # js_join c ws"

text \<open>
  \<open>Buffer.from(s, 'hex')\<close>: two hex digits per byte, decoding stops at the first pair
  that is not made of hex digits, and a trailing single character is dropped.
\<close>

definition hex_digit :: "char \<Rightarrow> nat option" where
  "hex_digit c =
     (let n = of_char c :: nat in
      if 48 \<le> n \<and> n \<le> 57 then Some (n - 48)
      else if 97 \<le> n \<and> n \<le> 102 then Some (n - 87)
      else if 65 \<le> n \<and> n \<le> 70 then Some (n - 55)
      else None)"

fun buffer_from_hex :: "string \<Rightarrow> bytes" where
  "buffer_from_hex (a # b # rest) =
     (case (hex_digit a, hex_digit b) of
        (Some x, Some y) \<Rightarrow> word_of_nat (16 * x + y) # buffer_from_hex rest
      | _ \<Rightarrow> [])"
| "buffer_from_hex _ = []"

section \<open>ObjectStorage\<close>

subsection \<open>The platform functions ObjectStorage calls\<close>

text \<open>
  \<open>zlib\<close>, \<open>crypto\<close> and \<open>path\<close> are Node.js modules, not code of this repository.
  They are parameters of the model. Compression and encryption return bytes;
  decompression and decryption throw on malformed input, which is \<open>None\<close> here.
  \<open>cipher key iv data\<close> is \<open>Buffer.concat([c.update(data), c.final()])\<close> for
  \<open>c = createCipheriv('aes-256-cbc', key, iv)\<close>, and \<open>decipher\<close> likewise for
  \<open>createDecipheriv\<close>. Both constructors throw unless the key has 32 bytes and the
  IV has 16; that check is written out in \<open>createCipheriv_ok\<close>.
\<close>

record platform =
  gzip :: "nat \<Rightarrow> bytes \<Rightarrow> bytes"
  gunzip :: "bytes \<Rightarrow> bytes option"
  brotliCompress :: "bytes \<Rightarrow> bytes"
  brotliDecompress :: "bytes \<Rightarrow> bytes option"
  cipher :: "bytes \<Rightarrow> bytes \<Rightarrow> bytes \<Rightarrow> bytes"
  decipher :: "bytes \<Rightarrow> bytes \<Rightarrow> bytes \<Rightarrow> bytes option"
  sha256_hex :: "bytes \<Rightarrow> string"
  path_join :: "string \<Rightarrow> string \<Rightarrow> string"
  path_dirname :: "string \<Rightarrow> string"

definition createCipheriv_ok :: "bytes \<Rightarrow> bytes \<Rightarrow> bool" where
  "createCipheriv_ok key iv = (length key = 32 \<and> length iv = 16)"

subsection \<open>State\<close>

text \<open>
  The fields of the class that the operations read or write, and the file system they
  act on. The file system is a map from path to file content; directories are not
  tracked, so \<open>fs.mkdir\<close> leaves the map unchanged, and a path names one file: keys
  are taken to be relative file names that \<open>path.join\<close> does not turn into a
  directory or into the path of another object. Reads of a missing file fail; writes
  are taken to succeed, except in the definitions that model a failing write.
  \<open>dedup_index_json\<close> is the content of \<open>dedup_index.json\<close> (the entries that
  \<open>saveDeduplicationIndex\<close> serialised), \<open>None\<close> while the file does not exist.

  \<open>useReplitStorage\<close> is set to \<open>false\<close> by the constructor and by \<open>initialize\<close> and is
  assigned nowhere else, so the branches guarded by it never run and are left out.
\<close>

record ObjectStorage =
  hotDir :: string
  warmDir :: string
  coldDir :: string
  compressionLevel :: nat
  enableDeduplication :: bool
  deduplicationMap :: "(string \<times> string) list"
  files :: "string \<rightharpoonup> bytes"
  dedup_index_json :: "(string \<times> string) list option"

datatype storage_error =
    ENOENT string
  | FileNotFoundInLocalStorage string
  | InvalidKeyOrIv
  | DecipherFailed
  | DecompressFailed
  | WriteFailed string

definition saveDeduplicationIndex :: "ObjectStorage \<Rightarrow> ObjectStorage" where
  "saveDeduplicationIndex s = s\<lparr>dedup_index_json := Some (deduplicationMap s)\<rparr>"

definition compressData :: "platform \<Rightarrow> ObjectStorage \<Rightarrow> bytes \<Rightarrow> string \<Rightarrow> bytes" where
  "compressData pf s data algorithm =
     (if algorithm = ''brotli'' then brotliCompress pf data
      else gzip pf (compressionLevel s) data)"

definition decompressData :: "platform \<Rightarrow> bytes \<Rightarrow> string \<Rightarrow> bytes option" where
  "decompressData pf data algorithm =
     (if algorithm = ''brotli'' then brotliDecompress pf data
      else gunzip pf data)"

definition getTierDirectory :: "ObjectStorage \<Rightarrow> string \<Rightarrow> string" where
  "getTierDirectory s tr =
     (if tr = ''hot'' then hotDir s
      else if tr = ''warm'' then warmDir s
      else if tr = ''cold'' then coldDir s
      else warmDir s)"

text \<open>
  \<open>key.includes('/') ? key.split('/').slice(1).join('/') : key\<close>, the expression
  with which \<open>retrieve\<close>, \<open>exists\<close>, \<open>delete\<close> and \<open>moveTier\<close> strip the tier prefix.
\<close>

definition baseKey_of :: "string \<Rightarrow> string" where
  "baseKey_of key =
     (if CHR ''/'' \<in> set key then js_join (CHR ''/'') (tl (js_split (CHR ''/'') key))
      else key)"

text \<open>JavaScript truthiness of a string that may be \<open>null\<close>: \<open>null\<close> and \<open>""\<close> are falsy.\<close>

definition truthy :: "string option \<Rightarrow> bool" where
  "truthy x = (case x of None \<Rightarrow> False | Some v \<Rightarrow> v \<noteq> [])"

subsection \<open>store\<close>

record store_options =
  tier :: string
  compress :: bool
  compressionAlgorithm :: string
  encrypt :: bool
  encryptionKey :: "string option"
  enableDedup :: bool

text \<open>The defaults of the destructuring at the head of \<open>store\<close>.\<close>

definition default_store_options :: "ObjectStorage \<Rightarrow> store_options" where
  "default_store_options s =
     \<lparr>tier = ''warm'', compress = True, compressionAlgorithm = ''gzip'',
      encrypt = False, encryptionKey = None, enableDedup = enableDeduplication s\<rparr>"

text \<open>
  The object \<open>store\<close> returns. The two return statements build objects with different
  fields; a field that the object does not have is \<open>None\<close>. \<open>r_dedupHash\<close> and
  \<open>r_compressionAlgorithm\<close> are also \<open>None\<close> where the source returns \<open>null\<close>.
\<close>

record store_result =
  r_key :: string
  r_path :: string
  r_tier :: string
  r_originalSize :: nat
  r_dedupHash :: "string option"
  r_deduplicated :: bool
  r_storedSize :: "nat option"
  r_compressedSize :: "nat option"
  r_compressionRatio :: "rat option"
  r_compressed :: "bool option"
  r_encrypted :: "bool option"
  r_compressionAlgorithm :: "string option"

text \<open>
  The calls \<open>store\<close> makes on the file system for a new object, in order:
  \<open>fs.mkdir(path.dirname(localCachePath), {recursive: true})\<close> and
  \<open>fs.writeFile(localCachePath, data)\<close>.
\<close>

datatype fs_call =
    Mkdir string
  | WriteFile string bytes
  | Rename string string
  | Unlink string

fun fs_apply :: "fs_call \<Rightarrow> (string \<rightharpoonup> bytes) \<Rightarrow> (string \<rightharpoonup> bytes)" where
  "fs_apply (Mkdir d) fs = fs"
| "fs_apply (WriteFile p data) fs = fs(p \<mapsto> data)"
| "fs_apply (Rename p q) fs =
     (case fs p of None \<Rightarrow> fs | Some data \<Rightarrow> (fs(p := None))(q \<mapsto> data))"
| "fs_apply (Unlink p) fs = fs(p := None)"

definition localCachePath :: "platform \<Rightarrow> ObjectStorage \<Rightarrow> string \<Rightarrow> string \<Rightarrow> string" where
  "localCachePath pf s tr baseKey = path_join pf (getTierDirectory s tr) baseKey"

definition store_fs_calls :: "platform \<Rightarrow> ObjectStorage \<Rightarrow> string \<Rightarrow> string \<Rightarrow> bytes \<Rightarrow> fs_call list" where
  "store_fs_calls pf s tr key data =
     [Mkdir (path_dirname pf (localCachePath pf s tr key)),
      WriteFile (localCachePath pf s tr key) data]"

text \<open>
  The two transformations of \<open>store\<close>. \<open>iv\<close> is the value of \<open>crypto.randomBytes(16)\<close>.
  Encryption runs only under \<open>encrypt && encryptionKey\<close>; the key is
  \<open>Buffer.from(encryptionKey.substring(0, 64), 'hex')\<close>.
\<close>

definition store_compress :: "platform \<Rightarrow> ObjectStorage \<Rightarrow> store_options \<Rightarrow> bytes \<Rightarrow> bytes" where
  "store_compress pf s opts data =
     (if compress opts then compressData pf s data (compressionAlgorithm opts) else data)"

definition store_encrypt :: "platform \<Rightarrow> store_options \<Rightarrow> bytes \<Rightarrow> bytes \<Rightarrow> storage_error + bytes" where
  "store_encrypt pf opts iv data =
     (if encrypt opts \<and> truthy (encryptionKey opts) then
        (let k = buffer_from_hex (take 64 (the (encryptionKey opts))) in
         if createCipheriv_ok k iv then Inr (iv @ cipher pf k iv data)
         else Inl InvalidKeyOrIv)
      else Inr data)"

text \<open>
  \<open>store(key, filePath, options)\<close>. The source file is read from the same file system;
  a missing source makes \<open>computeHash\<close> or \<open>fs.readFile\<close> reject. Every failure of the
  model happens before the first write, so a failed call leaves the state as it was.
\<close>

definition store ::
  "platform \<Rightarrow> ObjectStorage \<Rightarrow> bytes \<Rightarrow> string \<Rightarrow> string \<Rightarrow> store_options
     \<Rightarrow> storage_error + (store_result \<times> ObjectStorage)" where
  "store pf s iv key filePath opts =
     (case files s filePath of
        None \<Rightarrow> Inl (ENOENT filePath)
      | Some content \<Rightarrow>
         (let dedupHash = (if enableDedup opts then Some (sha256_hex pf content) else None) in
          if enableDedup opts \<and> js_map_has (deduplicationMap s) (sha256_hex pf content) then
            (let existingKey = the (js_map_get (deduplicationMap s) (sha256_hex pf content)) in
             Inr (\<lparr>r_key = existingKey, r_path = existingKey, r_tier = tier opts,
                   r_originalSize = length content, r_dedupHash = dedupHash,
                   r_deduplicated = True, r_storedSize = Some 0,
                   r_compressedSize = None, r_compressionRatio = None,
                   r_compressed = None, r_encrypted = None,
                   r_compressionAlgorithm = None\<rparr>, s))
          else
            (let originalSize = length content;
                 data1 = store_compress pf s opts content;
                 compressedSize = (if compress opts then length data1 else originalSize)
             in case store_encrypt pf opts iv data1 of
                  Inl e \<Rightarrow> Inl e
                | Inr data \<Rightarrow>
                   (let storageKey = tier opts @ ''/'' @ key;
                        s1 = s\<lparr>files := fold fs_apply (store_fs_calls pf s (tier opts) key data) (files s)\<rparr>;
                        s2 = (if enableDedup opts \<and> truthy dedupHash
                              then saveDeduplicationIndex
                                     (s1\<lparr>deduplicationMap :=
                                          js_map_set (the dedupHash) storageKey (deduplicationMap s1)\<rparr>)
                              else s1)
                    in Inr (\<lparr>r_key = storageKey, r_path = storageKey, r_tier = tier opts,
                             r_originalSize = originalSize, r_dedupHash = dedupHash,
                             r_deduplicated = False, r_storedSize = None,
                             r_compressedSize = Some compressedSize,
                             r_compressionRatio =
                               Some (if originalSize > 0
                                     then 1 - of_nat compressedSize / of_nat originalSize
                                     else 0),
                             r_compressed = Some (compress opts),
                             r_encrypted = Some (encrypt opts),
                             r_compressionAlgorithm =
                               (if compress opts then Some (compressionAlgorithm opts) else None)\<rparr>,
                           s2)))))"

subsection \<open>retrieve\<close>

record retrieve_options =
  decompress :: bool
  decompressionAlgorithm :: string
  decrypt :: bool
  decryptionKey :: "string option"


definition retrieve_decrypt :: "platform \<Rightarrow> retrieve_options \<Rightarrow> bytes \<Rightarrow> storage_error + bytes" where
  "retrieve_decrypt pf opts data =
     (if decrypt opts \<and> truthy (decryptionKey opts) then
        (let iv = take 16 data;
             encrypted = drop 16 data;
             k = buffer_from_hex (take 64 (the (decryptionKey opts)))
         in if createCipheriv_ok k iv then
              (case decipher pf k iv encrypted of
                 None \<Rightarrow> Inl DecipherFailed
               | Some plain \<Rightarrow> Inr plain)
            else Inl InvalidKeyOrIv)
      else Inr data)"

definition retrieve_decompress :: "platform \<Rightarrow> retrieve_options \<Rightarrow> bytes \<Rightarrow> storage_error + bytes" where
  "retrieve_decompress pf opts data =
     (if decompress opts then
        (case decompressData pf data (decompressionAlgorithm opts) of
           None \<Rightarrow> Inl DecompressFailed
         | Some plain \<Rightarrow> Inr plain)
      else Inr data)"

text \<open>
  \<open>retrieve(key, tier, options)\<close>. With \<open>useReplitStorage\<close> false it reads one file
  and changes nothing, so the model returns only the bytes or the error.
\<close>

definition retrieve ::
  "platform \<Rightarrow> ObjectStorage \<Rightarrow> string \<Rightarrow> string \<Rightarrow> retrieve_options \<Rightarrow> storage_error + bytes" where
  "retrieve pf s key tr opts =
     (let baseKey = baseKey_of key in
      case files s (localCachePath pf s tr baseKey) of
        None \<Rightarrow> Inl (FileNotFoundInLocalStorage baseKey)
      | Some data \<Rightarrow>
         (case retrieve_decrypt pf opts data of
            Inl e \<Rightarrow> Inl e
          | Inr data' \<Rightarrow> retrieve_decompress pf opts data'))"

subsection \<open>delete and moveTier\<close>

text \<open>
  The loop \<open>for (const [hash, path] of this.deduplicationMap.entries())\<close> with its
  \<open>break\<close>: the hash of the first entry, in insertion order, whose location is the
  given storage key.
\<close>

fun first_hash_with_path :: "string \<Rightarrow> (string \<times> string) list \<Rightarrow> string option" where
  "first_hash_with_path p [] = None"
| "first_hash_with_path p ((h, q) # m) =
     (if q = p then Some h else first_hash_with_path p m)"


text \<open>
  \<open>moveTier(key, fromTier, toTier)\<close> awaits twice after computing its paths: the
  \<open>mkdir\<close> and \<open>rename\<close> inside the \<open>try\<close> (a failure is logged and swallowed; renaming
  a missing file changes nothing), and the index update. The two parts are separate
  definitions so that the state between them can be named.
\<close>

definition moveTier_fs_calls :: "platform \<Rightarrow> ObjectStorage \<Rightarrow> string \<Rightarrow> string \<Rightarrow> string \<Rightarrow> fs_call list" where
  "moveTier_fs_calls pf s key fromTier toTier =
     (let baseKey = baseKey_of key;
          fromPath = localCachePath pf s fromTier baseKey;
          toPath = localCachePath pf s toTier baseKey
      in [Mkdir (path_dirname pf toPath), Rename fromPath toPath])"

definition moveTier_local :: "platform \<Rightarrow> ObjectStorage \<Rightarrow> string \<Rightarrow> string \<Rightarrow> string \<Rightarrow> ObjectStorage" where
  "moveTier_local pf s key fromTier toTier =
     s\<lparr>files := fold fs_apply (moveTier_fs_calls pf s key fromTier toTier) (files s)\<rparr>"

definition moveTier_index :: "ObjectStorage \<Rightarrow> string \<Rightarrow> string \<Rightarrow> string \<Rightarrow> ObjectStorage" where
  "moveTier_index s key fromTier toTier =
     (let baseKey = baseKey_of key;
          oldStorageKey = fromTier @ ''/'' @ baseKey;
          newStorageKey = toTier @ ''/'' @ baseKey
      in case first_hash_with_path oldStorageKey (deduplicationMap s) of
           None \<Rightarrow> s
         | Some h \<Rightarrow>
             saveDeduplicationIndex
               (s\<lparr>deduplicationMap := js_map_set h newStorageKey (deduplicationMap s)\<rparr>))"

definition moveTier ::
  "platform \<Rightarrow> ObjectStorage \<Rightarrow> string \<Rightarrow> string \<Rightarrow> string \<Rightarrow> string \<times> ObjectStorage" where
  "moveTier pf s key fromTier toTier =
     (toTier @ ''/'' @ baseKey_of key,
      moveTier_index (moveTier_local pf s key fromTier toTier) key fromTier toTier)"

subsection \<open>A call of store that fails part-way\<close>




section \<open>CacheManager\<close>

text \<open>
  Times are milliseconds since the epoch and sizes are byte counts, both as integers.
  A cached value is represented by its JSON text, so that
  \<open>Buffer.byteLength(JSON.stringify(value))\<close> is the length of the text.
  \<open>cacheEntries\<close> is the \<open>cache_entries\<close> table; its nullable columns are options.
  Every database call of the class sits in a \<open>try\<close> whose \<open>catch\<close> only logs; the model
  takes the calls to succeed.
\<close>

record cache_entry =
  e_value :: string
  expiresAt :: int
  sizeBytes :: int

record cache_row =
  row_key :: string
  row_value :: string
  row_expiresAt :: "int option"
  row_hitCount :: "int option"
  row_lastAccessedAt :: "int option"
  row_sizeBytes :: "int option"

record CacheManager =
  maxMemoryMB :: int
  defaultTTL :: int
  memoryCache :: "(string \<times> cache_entry) list"
  hits :: int
  misses :: int
  evictions :: int
  totalMemoryBytes :: int
  cacheEntries :: "cache_row list"

text \<open>\<open>x || d\<close> for a number that may be \<open>null\<close>: \<open>null\<close> and \<open>0\<close> give \<open>d\<close>.\<close>

definition num_or :: "int option \<Rightarrow> int \<Rightarrow> int" where
  "num_or x d = (case x of None \<Rightarrow> d | Some v \<Rightarrow> if v = 0 then d else v)"

text \<open>
  The inner loop of \<open>evictIfNeeded\<close>. \<open>oldestTime\<close> starts at \<open>Infinity\<close>, which is
  \<open>None\<close> here; \<open>entry.expiresAt < oldestTime\<close> holds for every integer against
  \<open>Infinity\<close>.
\<close>

fun oldest_scan ::
  "(string \<times> cache_entry) list \<Rightarrow> string option \<times> int option \<Rightarrow> string option \<times> int option" where
  "oldest_scan [] acc = acc"
| "oldest_scan ((k, e) # m) (oldestKey, oldestTime) =
     oldest_scan m
       (if (case oldestTime of None \<Rightarrow> True | Some t \<Rightarrow> expiresAt e < t)
        then (Some k, Some (expiresAt e))
        else (oldestKey, oldestTime))"

lemma js_map_delete_shorter:
  "map_of m k = Some e \<Longrightarrow> length (js_map_delete k m) < length m"
proof (induction m)
  case Nil
  then show ?case by simp
next
  case (Cons a m)
  show ?case
  proof (cases "fst a = k")
    case True
    have "length (filter (\<lambda>e. fst e \<noteq> k) m) \<le> length m" by simp
    then have "length (filter (\<lambda>e. fst e \<noteq> k) m) < Suc (length m)" by arith
    with True show ?thesis by (simp add: js_map_delete_def)
  next
    case False
    with Cons show ?thesis by (cases a) (auto simp: js_map_delete_def)
  qed
qed

text \<open>
  \<open>evictIfNeeded()\<close>. \<open>if (oldestKey)\<close> is a truthiness test: it fails for \<open>null\<close> (no
  entry was selected) and for the empty string. The last \<open>None\<close> branch cannot be
  reached, since the selected key is a key of the map.
\<close>

function evictIfNeeded :: "CacheManager \<Rightarrow> CacheManager" where
  "evictIfNeeded c =
     (if totalMemoryBytes c > maxMemoryMB c * 1024 * 1024 \<and> length (memoryCache c) > 0 then
        (case fst (oldest_scan (memoryCache c) (None, None)) of
           None \<Rightarrow> c
         | Some oldestKey \<Rightarrow>
             if oldestKey = [] then c
             else (case js_map_get (memoryCache c) oldestKey of
                     None \<Rightarrow> c
                   | Some entry \<Rightarrow>
                       evictIfNeeded
                         (c\<lparr>totalMemoryBytes := totalMemoryBytes c - sizeBytes entry,
                            memoryCache := js_map_delete oldestKey (memoryCache c),
                            evictions := evictions c + 1\<rparr>)))
      else c)"
  by pat_completeness auto
termination
  by (relation "measure (\<lambda>c. length (memoryCache c))")
     (auto simp: js_map_get_def js_map_delete_shorter)

text \<open>The durable layer: \<open>insert ... onConflictDoUpdate\<close> and \<open>incrementHitCount\<close>.\<close>

fun db_upsert :: "cache_row \<Rightarrow> cache_row list \<Rightarrow> cache_row list" where
  "db_upsert r [] = [r]"
| "db_upsert r (x # xs) =
     (if row_key x = row_key r
      then x\<lparr>row_value := row_value r, row_expiresAt := row_expiresAt r,
             row_lastAccessedAt := row_lastAccessedAt r, row_sizeBytes := row_sizeBytes r\<rparr> # xs
      else x # db_upsert r xs)"

definition incrementHitCount :: "CacheManager \<Rightarrow> int \<Rightarrow> string \<Rightarrow> CacheManager" where
  "incrementHitCount c now key =
     c\<lparr>cacheEntries :=
         map (\<lambda>x. if row_key x = key
                   then x\<lparr>row_hitCount := map_option (\<lambda>h. h + 1) (row_hitCount x),
                          row_lastAccessedAt := Some now\<rparr>
                   else x)
             (cacheEntries c)\<rparr>"

text \<open>\<open>set(key, value, ttlMs)\<close>; \<open>now\<close> is \<open>Date.now()\<close>.\<close>

definition CacheManager_set ::
  "CacheManager \<Rightarrow> int \<Rightarrow> string \<Rightarrow> string \<Rightarrow> int option \<Rightarrow> bool \<times> CacheManager" where
  "CacheManager_set c now key valueStr ttlMs =
     (let expires = now + num_or ttlMs (defaultTTL c);
          size = int (length valueStr);
          c1 = c\<lparr>memoryCache :=
                   js_map_set key \<lparr>e_value = valueStr, expiresAt = expires, sizeBytes = size\<rparr>
                     (memoryCache c)\<rparr>;
          c2 = c1\<lparr>totalMemoryBytes := totalMemoryBytes c1 + size\<rparr>;
          c3 = evictIfNeeded c2;
          c4 = c3\<lparr>cacheEntries :=
                    db_upsert \<lparr>row_key = key, row_value = valueStr, row_expiresAt = Some expires,
                               row_hitCount = Some 0, row_lastAccessedAt = Some now,
                               row_sizeBytes = Some size\<rparr>
                      (cacheEntries c3)\<rparr>
      in (True, c4))"

text \<open>\<open>get(key)\<close>; the result \<open>None\<close> is the \<open>null\<close> of a miss.\<close>

definition CacheManager_get_durable :: "CacheManager \<Rightarrow> int \<Rightarrow> string \<Rightarrow> string option \<times> CacheManager" where
  "CacheManager_get_durable c now key =
     (case filter (\<lambda>x. row_key x = key) (cacheEntries c) of
        [] \<Rightarrow> (None, c\<lparr>misses := misses c + 1\<rparr>)
      | entry # rest \<Rightarrow>
          if (case row_expiresAt entry of None \<Rightarrow> True | Some t \<Rightarrow> t > now) then
            (let c1 = c\<lparr>hits := hits c + 1\<rparr>;
                 c2 = c1\<lparr>memoryCache :=
                          js_map_set key
                            \<lparr>e_value = row_value entry,
                             expiresAt = num_or (row_expiresAt entry) (now + defaultTTL c1),
                             sizeBytes = num_or (row_sizeBytes entry) 0\<rparr>
                            (memoryCache c1)\<rparr>
             in (Some (row_value entry), incrementHitCount c2 now key))
          else
            (let c1 = c\<lparr>cacheEntries := filter (\<lambda>x. row_key x \<noteq> key) (cacheEntries c)\<rparr>
             in (None, c1\<lparr>misses := misses c1 + 1\<rparr>)))"

definition CacheManager_get :: "CacheManager \<Rightarrow> int \<Rightarrow> string \<Rightarrow> string option \<times> CacheManager" where
  "CacheManager_get c now key =
     (case js_map_get (memoryCache c) key of
        Some memEntry \<Rightarrow>
          if expiresAt memEntry > now
          then (Some (e_value memEntry), incrementHitCount (c\<lparr>hits := hits c + 1\<rparr>) now key)
          else CacheManager_get_durable
                 (c\<lparr>memoryCache := js_map_delete key (memoryCache c)\<rparr>) now key
      | None \<Rightarrow> CacheManager_get_durable c now key)"

definition CacheManager_delete :: "CacheManager \<Rightarrow> string \<Rightarrow> bool \<times> CacheManager" where
  "CacheManager_delete c key =
     (True, c\<lparr>memoryCache := js_map_delete key (memoryCache c),
               cacheEntries := filter (\<lambda>x. row_key x \<noteq> key) (cacheEntries c)\<rparr>)"

definition CacheManager_clear :: "CacheManager \<Rightarrow> CacheManager" where
  "CacheManager_clear c = c\<lparr>memoryCache := [], totalMemoryBytes := 0, cacheEntries := []\<rparr>"

text \<open>
  \<open>cleanupExpired()\<close>. Deleting from a \<open>Map\<close> while iterating over it is defined in
  JavaScript (the remaining entries are still visited), so the loop is a fold over the
  entries the map had at the start. The SQL \<open>expires_at < now\<close> is not true of a
  \<open>NULL\<close> column.
\<close>

definition cleanupExpired :: "CacheManager \<Rightarrow> int \<Rightarrow> CacheManager" where
  "cleanupExpired c now =
     (let c1 = fold (\<lambda>(key, entry) c'.
                       if expiresAt entry < now
                       then c'\<lparr>totalMemoryBytes := totalMemoryBytes c' - sizeBytes entry,
                               memoryCache := js_map_delete key (memoryCache c')\<rparr>
                       else c')
                    (memoryCache c) c
      in c1\<lparr>cacheEntries :=
              filter (\<lambda>x. \<not> (case row_expiresAt x of None \<Rightarrow> False | Some t \<Rightarrow> t < now))
                (cacheEntries c1)\<rparr>)"

text \<open>A run of the cache: the operations of the class, applied in order.\<close>

datatype cache_op =
    OpSet int string string "int option"
  | OpGet int string
  | OpDelete string
  | OpClear
  | OpCleanupExpired int

fun cache_step :: "cache_op \<Rightarrow> CacheManager \<Rightarrow> CacheManager" where
  "cache_step (OpSet now key valueStr ttlMs) c = snd (CacheManager_set c now key valueStr ttlMs)"
| "cache_step (OpGet now key) c = snd (CacheManager_get c now key)"
| "cache_step (OpDelete key) c = snd (CacheManager_delete c key)"
| "cache_step OpClear c = CacheManager_clear c"
| "cache_step (OpCleanupExpired now) c = cleanupExpired c now"

text \<open>The constructor: an empty cache with the configured (or default) limits.\<close>

definition new_CacheManager :: "int option \<Rightarrow> int option \<Rightarrow> CacheManager" where
  "new_CacheManager cfgMaxMemoryMB cfgDefaultTTL =
     \<lparr>maxMemoryMB = num_or cfgMaxMemoryMB 100, defaultTTL = num_or cfgDefaultTTL 3600000,
      memoryCache = [], hits = 0, misses = 0, evictions = 0, totalMemoryBytes = 0,
      cacheEntries = []\<rparr>"

section \<open>StorageManager: quotas and createProfile\<close>

text \<open>
  The tables \<open>profiles\<close> and \<open>storage_quotas\<close> with the columns \<open>createProfile\<close>,
  \<open>checkQuota\<close> and \<open>updateQuotaUsage\<close> read or write; nullable columns are options.
  Both integer columns of a quota are PostgreSQL \<open>integer\<close>s; \<open>createProfile\<close> adds
  \<open>1\<close> to \<open>current_value\<close> only below the limit, so the sum stays in range and
  unbounded integers model it. \<open>performanceMetrics\<close> only records timings and is left
  out.
\<close>

record profile_row =
  p_id :: string
  p_name :: string
  p_description :: "string option"
  p_createdAt :: int
  p_updatedAt :: int
  p_sizeBytes :: "int option"
  p_isActive :: "bool option"
  p_storageTier :: "string option"
  p_lastAccessedAt :: "int option"
  p_accessCount :: "int option"

record quota_row =
  q_id :: string
  quotaType :: string
  limitValue :: int
  currentValue :: "int option"
  isExceeded :: "bool option"
  lastCheckedAt :: "int option"

record StorageManager =
  cacheManager :: CacheManager
  profiles :: "profile_row list"
  storageQuotas :: "quota_row list"







section \<open>Vocabulary of the properties\<close>

text \<open>
  What a call returned and the state it left; a call that failed before its first write
  leaves the state it started from.
\<close>

definition result_of :: "'e + ('r \<times> 's) \<Rightarrow> 'r option" where
  "result_of x = (case x of Inl e \<Rightarrow> None | Inr (r, s) \<Rightarrow> Some r)"

definition state_after :: "'s \<Rightarrow> 'e + ('r \<times> 's) \<Rightarrow> 's" where
  "state_after s x = (case x of Inl e \<Rightarrow> s | Inr (r, s') \<Rightarrow> s')"

text \<open>
  The contract of the Node.js codecs that the round trip relies on: decompressing a
  compressed buffer and deciphering a ciphertext with the key and IV it was made with
  give the buffer back.
\<close>

definition codecs_roundtrip :: "platform \<Rightarrow> bool" where
  "codecs_roundtrip pf =
     ((\<forall>level data. gunzip pf (gzip pf level data) = Some data)
      \<and> (\<forall>data. brotliDecompress pf (brotliCompress pf data) = Some data)
      \<and> (\<forall>k iv data. createCipheriv_ok k iv \<longrightarrow> decipher pf k iv (cipher pf k iv data) = Some data))"

text \<open>A key string whose first 64 characters decode to the 32 bytes AES-256 needs.\<close>

definition valid_hex_key :: "string option \<Rightarrow> bool" where
  "valid_hex_key k = (truthy k \<and> length (buffer_from_hex (take 64 (the k))) = 32)"

text \<open>The options of \<open>retrieve\<close> that match those the object was stored with.\<close>

definition matching_options :: "store_options \<Rightarrow> retrieve_options \<Rightarrow> bool" where
  "matching_options opts ropts =
     (decompress ropts = compress opts
      \<and> decompressionAlgorithm ropts = compressionAlgorithm opts
      \<and> decrypt ropts = encrypt opts
      \<and> decryptionKey ropts = encryptionKey opts)"


text \<open>The sum of \<open>sizeBytes\<close> over the entries of the in-process map.\<close>

definition tracked_sum :: "CacheManager \<Rightarrow> int" where
  "tracked_sum c = sum_list (map (\<lambda>e. sizeBytes (snd e)) (memoryCache c))"

text \<open>
  The amount by which the tracked total exceeds that sum; the accounting is exact when
  it is \<open>0\<close>.
\<close>

definition drift :: "CacheManager \<Rightarrow> int" where
  "drift c = totalMemoryBytes c - tracked_sum c"

text \<open>The rows of one quota type, in the order \<open>select\<close> returns them.\<close>

definition quota_rows :: "StorageManager \<Rightarrow> string \<Rightarrow> quota_row list" where
  "quota_rows m qt = filter (\<lambda>q. quotaType q = qt) (storageQuotas m)"

section \<open>A concrete platform and concrete states\<close>

text \<open>
  The general theorems below hold for every platform. Their instances, and the runs
  that refute a statement, need one platform that can be evaluated. This one frames
  the payload the way gzip does (RFC 1952: a ten-byte header before the compressed
  data and an eight-byte trailer after it) but stores the data unchanged, so its output
  is never longer than that of a real gzip on payloads of up to a few bytes; its cipher
  adds the byte sums of key and IV to every byte; its hash is a letter per byte.
  \<open>path.join\<close> and \<open>path.dirname\<close> are those of POSIX paths that need no
  normalisation.
\<close>

definition gz_header :: bytes where
  "gz_header = [0x1f, 0x8b, 8, 0, 0, 0, 0, 0, 0, 3]"

definition frame_gzip :: "nat \<Rightarrow> bytes \<Rightarrow> bytes" where
  "frame_gzip level data = gz_header @ data @ replicate 8 0"

definition frame_gunzip :: "bytes \<Rightarrow> bytes option" where
  "frame_gunzip data =
     (if length data \<ge> 18 \<and> take 10 data = gz_header
         \<and> drop (length data - 8) data = replicate 8 0
      then Some (take (length data - 18) (drop 10 data))
      else None)"

definition frame_brotli :: "bytes \<Rightarrow> bytes" where
  "frame_brotli data = 0x0b # data"

definition frame_unbrotli :: "bytes \<Rightarrow> bytes option" where
  "frame_unbrotli data = (case data of [] \<Rightarrow> None | b # rest \<Rightarrow> if b = 0x0b then Some rest else None)"

definition shift_cipher :: "bytes \<Rightarrow> bytes \<Rightarrow> bytes \<Rightarrow> bytes" where
  "shift_cipher k iv data = map (\<lambda>b. b + (sum_list k + sum_list iv)) data"

definition shift_decipher :: "bytes \<Rightarrow> bytes \<Rightarrow> bytes \<Rightarrow> bytes option" where
  "shift_decipher k iv data = Some (map (\<lambda>b. b - (sum_list k + sum_list iv)) data)"

definition letter_hash :: "bytes \<Rightarrow> string" where
  "letter_hash data = map (\<lambda>b. char_of (97 + unat b mod 26)) data"

definition posix_join :: "string \<Rightarrow> string \<Rightarrow> string" where
  "posix_join a b = a @ ''/'' @ b"

definition posix_dirname :: "string \<Rightarrow> string" where
  "posix_dirname p = rev (tl (dropWhile (\<lambda>c. c \<noteq> CHR ''/'') (rev p)))"

definition test_platform :: platform where
  "test_platform =
     \<lparr>gzip = frame_gzip, gunzip = frame_gunzip,
      brotliCompress = frame_brotli, brotliDecompress = frame_unbrotli,
      cipher = shift_cipher, decipher = shift_decipher,
      sha256_hex = letter_hash, path_join = posix_join, path_dirname = posix_dirname\<rparr>"



text \<open>
  A store as \<open>new ObjectStorage({baseDir: '/data'})\<close> leaves it, with one source file
  of three bytes at \<open>/tmp/in\<close> and one of a single byte at \<open>/tmp/one\<close>.
\<close>

definition test_storage :: ObjectStorage where
  "test_storage =
     \<lparr>hotDir = ''/data/hot'', warmDir = ''/data/warm'', coldDir = ''/data/cold'',
      compressionLevel = 6, enableDeduplication = True, deduplicationMap = [],
      files = [''/tmp/in'' \<mapsto> [1, 2, 3], ''/tmp/one'' \<mapsto> [0x61]],
      dedup_index_json = None\<rparr>"

definition test_iv :: bytes where
  "test_iv = replicate 16 7"

definition test_key :: string where
  "test_key = concat (replicate 32 ''0a'')"

definition test_store_options :: store_options where
  "test_store_options =
     \<lparr>tier = ''hot'', compress = True, compressionAlgorithm = ''gzip'',
      encrypt = True, encryptionKey = Some test_key, enableDedup = True\<rparr>"

definition test_retrieve_options :: retrieve_options where
  "test_retrieve_options =
     \<lparr>decompress = True, decompressionAlgorithm = ''gzip'',
      decrypt = True, decryptionKey = Some test_key\<rparr>"

definition test_options_no_key :: store_options where
  "test_options_no_key =
     \<lparr>tier = ''warm'', compress = False, compressionAlgorithm = ''gzip'',
      encrypt = True, encryptionKey = None, enableDedup = False\<rparr>"

definition test_options_no_key_dedup :: store_options where
  "test_options_no_key_dedup = test_options_no_key\<lparr>enableDedup := True\<rparr>"

text \<open>
  The states of the scenario of the specification: the three bytes of \<open>/tmp/in\<close> stored
  under \<open>A\<close> with the default options (warm tier, gzip, deduplication on), then stored
  again under \<open>B\<close>, then the location of \<open>A\<close> deleted.
\<close>

definition test_after_A :: ObjectStorage where
  "test_after_A =
     state_after test_storage
       (store test_platform test_storage test_iv ''A'' ''/tmp/in'' (default_store_options test_storage))"




text \<open>
  An encrypted object in the hot tier, and the state between the \<open>rename\<close> and the index
  update of its move to the warm tier.
\<close>

definition test_hot :: ObjectStorage where
  "test_hot =
     state_after test_storage
       (store test_platform test_storage test_iv ''A'' ''/tmp/in'' test_store_options)"

definition test_mid_move :: ObjectStorage where
  "test_mid_move = moveTier_local test_platform test_hot ''hot/A'' ''hot'' ''warm''"

text \<open>
  Runs of a cache: \<open>set\<close> then \<open>delete\<close> of one key, \<open>set\<close> twice of one key, and, with
  a budget of one megabyte, \<open>set\<close> of a value of two million bytes under the empty key.
\<close>

definition test_cache_after_delete :: CacheManager where
  "test_cache_after_delete =
     fold cache_step [OpSet 1000 ''a'' ''42'' None, OpDelete ''a''] (new_CacheManager None None)"

definition test_cache_set_twice :: CacheManager where
  "test_cache_set_twice =
     fold cache_step [OpSet 1000 ''a'' ''42'' None, OpSet 1001 ''a'' ''42'' None]
       (new_CacheManager None None)"

definition test_cache_empty_key :: CacheManager where
  "test_cache_empty_key =
     snd (CacheManager_set (new_CacheManager (Some 1) None) 1000 ''''
            (replicate 2000000 (CHR ''1'')) None)"

text \<open>
  A cache with a budget of one megabyte that holds two entries of 600000 bytes, the
  second of which expires first.
\<close>

definition test_cache_two :: CacheManager where
  "test_cache_two =
     (new_CacheManager (Some 1) None)
       \<lparr>memoryCache :=
          [(''a'', \<lparr>e_value = ''1'', expiresAt = 5, sizeBytes = 600000\<rparr>),
           (''b'', \<lparr>e_value = ''2'', expiresAt = 3, sizeBytes = 600000\<rparr>)],
        totalMemoryBytes := 1200000\<rparr>"




section \<open>Basic facts\<close>

lemma js_split_nonempty: "js_split c xs \<noteq> []"
  by (induction xs) auto

lemma js_join_Cons: "ws \<noteq> [] \<Longrightarrow> js_join c (w # ws) = w @ c # js_join c ws"
  by (cases ws) auto

lemma js_join_split: "js_join c (js_split c xs) = xs"
proof (induction xs)
  case Nil
  show ?case by simp
next
  case (Cons x xs)
  obtain h t where r: "js_split c xs = h # t"
    using js_split_nonempty [of c xs] by (cases "js_split c xs") auto
  show ?case
  proof (cases "x = c")
    case True
    with Cons show ?thesis by (simp add: js_join_Cons js_split_nonempty)
  next
    case False
    with Cons r show ?thesis by (cases t) auto
  qed
qed

lemma js_split_prefix:
  "c \<notin> set t \<Longrightarrow> js_split c (t @ c # key) = t # js_split c key"
  by (induction t) auto

lemma baseKey_of_storageKey:
  "CHR ''/'' \<notin> set t \<Longrightarrow> baseKey_of (t @ CHR ''/'' # key) = key"
  by (simp add: baseKey_of_def js_split_prefix js_join_split)

lemma fold_store_fs_calls:
  "fold fs_apply (store_fs_calls pf s tr key data) fs = fs(localCachePath pf s tr key \<mapsto> data)"
  by (simp add: store_fs_calls_def)

lemma getTierDirectory_files [simp]:
  "getTierDirectory (s\<lparr>files := f\<rparr>) tr = getTierDirectory s tr"
  by (simp add: getTierDirectory_def)

lemma getTierDirectory_map [simp]:
  "getTierDirectory (s\<lparr>deduplicationMap := m\<rparr>) tr = getTierDirectory s tr"
  by (simp add: getTierDirectory_def)

lemma getTierDirectory_save [simp]:
  "getTierDirectory (saveDeduplicationIndex s) tr = getTierDirectory s tr"
  by (simp add: getTierDirectory_def saveDeduplicationIndex_def)

lemma files_save [simp]: "files (saveDeduplicationIndex s) = files s"
  by (simp add: saveDeduplicationIndex_def)

lemma deduplicationMap_save [simp]: "deduplicationMap (saveDeduplicationIndex s) = deduplicationMap s"
  by (simp add: saveDeduplicationIndex_def)

text \<open>What store does on the path that writes.\<close>

lemma store_written:
  assumes "files s filePath = Some content"
    and "\<not> (enableDedup opts \<and> js_map_has (deduplicationMap s) (sha256_hex pf content))"
    and "store_encrypt pf opts iv (store_compress pf s opts content) = Inr data"
  shows "\<exists>r s'. store pf s iv key filePath opts = Inr (r, s')
           \<and> files s' = (files s)(localCachePath pf s (tier opts) key \<mapsto> data)
           \<and> (\<forall>tr. getTierDirectory s' tr = getTierDirectory s tr)
           \<and> r_key r = tier opts @ ''/'' @ key
           \<and> r_deduplicated r = False
           \<and> r_encrypted r = Some (encrypt opts)
           \<and> r_compressed r = Some (compress opts)
           \<and> r_originalSize r = length content
           \<and> r_compressedSize r = Some (length (store_compress pf s opts content))
           \<and> r_compressionRatio r =
                Some (if length content > 0
                      then 1 - of_nat (length (store_compress pf s opts content)) / of_nat (length content)
                      else 0)
           \<and> deduplicationMap s' =
                (if enableDedup opts \<and> sha256_hex pf content \<noteq> []
                 then js_map_set (sha256_hex pf content) (tier opts @ ''/'' @ key) (deduplicationMap s)
                 else deduplicationMap s)"
  using assms
  by (auto simp: store_def Let_def fold_store_fs_calls truthy_def store_compress_def)

lemma frame_gunzip_gzip: "frame_gunzip (frame_gzip level data) = Some data"
proof -
  have l: "length gz_header = 10" by (simp add: gz_header_def)
  show ?thesis by (simp add: frame_gunzip_def frame_gzip_def l)
qed

lemma codecs_roundtrip_test_platform: "codecs_roundtrip test_platform"
  by (simp add: codecs_roundtrip_def test_platform_def frame_gunzip_gzip
      frame_brotli_def frame_unbrotli_def shift_cipher_def shift_decipher_def o_def)

section \<open>ObjectStorage: store and retrieve\<close>

lemma decompress_compress:
  "codecs_roundtrip pf \<Longrightarrow> decompressData pf (compressData pf s data alg) alg = Some data"
  by (simp add: codecs_roundtrip_def decompressData_def compressData_def)

lemma retrieve_decompress_store_compress:
  assumes "codecs_roundtrip pf" "matching_options opts ropts"
  shows "retrieve_decompress pf ropts (store_compress pf s opts P) = Inr P"
  using assms
  by (simp add: retrieve_decompress_def store_compress_def matching_options_def decompress_compress)

lemma store_encrypt_ok:
  assumes "encrypt opts \<longrightarrow> valid_hex_key (encryptionKey opts)" "length iv = 16"
  shows "store_encrypt pf opts iv data =
           Inr (if encrypt opts \<and> truthy (encryptionKey opts)
                then iv @ cipher pf (buffer_from_hex (take 64 (the (encryptionKey opts)))) iv data
                else data)"
  using assms by (auto simp: store_encrypt_def valid_hex_key_def createCipheriv_ok_def Let_def)

lemma retrieve_decrypt_store_encrypt:
  assumes "codecs_roundtrip pf" "matching_options opts ropts"
    and "encrypt opts \<longrightarrow> valid_hex_key (encryptionKey opts)" "length iv = 16"
    and "store_encrypt pf opts iv data = Inr stored"
  shows "retrieve_decrypt pf ropts stored = Inr data"
proof (cases "encrypt opts \<and> truthy (encryptionKey opts)")
  case True
  let ?k = "buffer_from_hex (take 64 (the (encryptionKey opts)))"
  from True assms(3,4) have ok: "createCipheriv_ok ?k iv"
    by (simp add: valid_hex_key_def createCipheriv_ok_def)
  from True ok assms(5) have st: "stored = iv @ cipher pf ?k iv data"
    by (simp add: store_encrypt_def Let_def)
  from assms(1) ok have "decipher pf ?k iv (cipher pf ?k iv data) = Some data"
    by (simp add: codecs_roundtrip_def)
  with True ok st assms(2,4) show ?thesis
    by (simp add: retrieve_decrypt_def matching_options_def Let_def)
next
  case False
  with assms(5) have "stored = data" by (auto simp: store_encrypt_def)
  with False assms(2) show ?thesis
    by (auto simp: retrieve_decrypt_def matching_options_def)
qed

text \<open>
  C1. A payload stored with any combination of \<open>compress\<close> and \<open>encrypt\<close> (a valid hex
  key where \<open>encrypt\<close> is set; deduplication off or the payload not yet indexed) is
  returned unchanged by \<open>retrieve\<close>, called with the key \<open>store\<close> returned, the same
  tier and the matching options. On the stored bytes \<open>retrieve\<close> first undoes the
  encryption (the first 16 bytes are the IV, the rest is deciphered), which gives the
  compressed payload, and then decompresses it. The tier is any string without a
  slash, which includes hot, warm and cold.
\<close>

theorem store_retrieve_roundtrip:
  assumes rt: "codecs_roundtrip pf"
    and src: "files s filePath = Some P"
    and fresh: "\<not> (enableDedup opts \<and> js_map_has (deduplicationMap s) (sha256_hex pf P))"
    and key: "encrypt opts \<longrightarrow> valid_hex_key (encryptionKey opts)"
    and iv: "length iv = 16"
    and tr: "CHR ''/'' \<notin> set (tier opts)"
    and m: "matching_options opts ropts"
  shows "\<exists>r s' stored.
           store pf s iv key filePath opts = Inr (r, s')
           \<and> files s' (localCachePath pf s' (tier opts) key) = Some stored
           \<and> retrieve pf s' (r_key r) (tier opts) ropts = Inr P
           \<and> retrieve_decrypt pf ropts stored = Inr (store_compress pf s opts P)
           \<and> retrieve_decompress pf ropts (store_compress pf s opts P) = Inr P"
proof -
  from store_encrypt_ok [OF key iv]
  obtain stored where enc: "store_encrypt pf opts iv (store_compress pf s opts P) = Inr stored"
    by blast
  from store_written [OF src fresh enc]
  obtain r s' where st: "store pf s iv key filePath opts = Inr (r, s')"
    and f: "files s' = (files s)(localCachePath pf s (tier opts) key \<mapsto> stored)"
    and d: "\<forall>t. getTierDirectory s' t = getTierDirectory s t"
    and k: "r_key r = tier opts @ ''/'' @ key"
    by blast
  have p: "localCachePath pf s' (tier opts) key = localCachePath pf s (tier opts) key"
    using d by (simp add: localCachePath_def)
  have dec: "retrieve_decrypt pf ropts stored = Inr (store_compress pf s opts P)"
    using retrieve_decrypt_store_encrypt [OF rt m key iv enc] .
  have unz: "retrieve_decompress pf ropts (store_compress pf s opts P) = Inr P"
    using retrieve_decompress_store_compress [OF rt m] .
  have "retrieve pf s' (r_key r) (tier opts) ropts = Inr P"
    using f p k dec unz tr by (simp add: retrieve_def baseKey_of_storageKey Let_def)
  with st f p dec unz show ?thesis by simp
qed

theorem store_retrieve_roundtrip_witness:
  "codecs_roundtrip test_platform
   \<and> files test_storage ''/tmp/in'' = Some [1, 2, 3]
   \<and> valid_hex_key (encryptionKey test_store_options)
   \<and> length test_iv = 16
   \<and> matching_options test_store_options test_retrieve_options
   \<and> (\<exists>r s' stored.
         store test_platform test_storage test_iv ''A'' ''/tmp/in'' test_store_options = Inr (r, s')
         \<and> files s' (localCachePath test_platform s' (tier test_store_options) ''A'') = Some stored
         \<and> retrieve test_platform s' (r_key r) (tier test_store_options) test_retrieve_options
             = Inr [1, 2, 3]
         \<and> retrieve_decrypt test_platform test_retrieve_options stored
             = Inr (store_compress test_platform test_storage test_store_options [1, 2, 3])
         \<and> retrieve_decompress test_platform test_retrieve_options
               (store_compress test_platform test_storage test_store_options [1, 2, 3])
             = Inr [1, 2, 3])"
proof -
  have src: "files test_storage ''/tmp/in'' = Some [1, 2, 3]"
    by (simp add: test_storage_def)
  have fresh: "\<not> (enableDedup test_store_options
      \<and> js_map_has (deduplicationMap test_storage) (sha256_hex test_platform [1, 2, 3]))"
    by (simp add: test_storage_def js_map_has_def)
  have vk: "valid_hex_key (encryptionKey test_store_options)"
    by code_simp
  then have key: "encrypt test_store_options \<longrightarrow> valid_hex_key (encryptionKey test_store_options)"
    by simp
  have iv: "length test_iv = 16" by (simp add: test_iv_def)
  have tr: "CHR ''/'' \<notin> set (tier test_store_options)"
    by (simp add: test_store_options_def)
  have m: "matching_options test_store_options test_retrieve_options"
    by (simp add: matching_options_def test_store_options_def test_retrieve_options_def)
  from store_retrieve_roundtrip [OF codecs_roundtrip_test_platform src fresh key iv tr m, of "''A''"]
  show ?thesis using codecs_roundtrip_test_platform src vk iv m by blast
qed

section \<open>Further facts about the operations\<close>

lemma store_Inr_cases:
  assumes "store pf s iv key filePath opts = Inr (r, s')"
  obtains (hit) content where "files s filePath = Some content"
      "enableDedup opts" "js_map_has (deduplicationMap s) (sha256_hex pf content)"
    | (written) content data where "files s filePath = Some content"
      "\<not> (enableDedup opts \<and> js_map_has (deduplicationMap s) (sha256_hex pf content))"
      "store_encrypt pf opts iv (store_compress pf s opts content) = Inr data"
  using assms
  by (auto simp: store_def Let_def split: option.splits if_splits sum.splits)

lemma store_hit:
  assumes "files s filePath = Some content" "enableDedup opts"
    and "js_map_get (deduplicationMap s) (sha256_hex pf content) = Some loc"
  shows "store pf s iv key filePath opts =
           Inr (\<lparr>r_key = loc, r_path = loc, r_tier = tier opts,
                 r_originalSize = length content, r_dedupHash = Some (sha256_hex pf content),
                 r_deduplicated = True, r_storedSize = Some 0,
                 r_compressedSize = None, r_compressionRatio = None,
                 r_compressed = None, r_encrypted = None,
                 r_compressionAlgorithm = None\<rparr>, s)"
  using assms by (simp add: store_def js_map_has_def js_map_get_def)

lemma ratio_bounds:
  fixes c n :: nat
  assumes "n > 0"
  shows "(1 - of_nat c / of_nat n :: rat) \<le> 1"
    and "(0 \<le> (1 - of_nat c / of_nat n :: rat)) = (c \<le> n)"
proof -
  have p: "(0::rat) < of_nat n" using assms by simp
  have "(0::rat) \<le> of_nat c / of_nat n" by simp
  then show "(1 - of_nat c / of_nat n :: rat) \<le> 1" by simp
  have "(of_nat c / of_nat n \<le> (1::rat)) = ((of_nat c :: rat) \<le> of_nat n)"
    using p by (simp add: divide_le_eq)
  then show "(0 \<le> (1 - of_nat c / of_nat n :: rat)) = (c \<le> n)" by simp
qed





lemma js_map_get_set: "js_map_get (js_map_set h v m) h = Some v"
  by (induction m) (auto simp: js_map_get_def)





lemma getTierDirectory_moveTier_index [simp]:
  "getTierDirectory (moveTier_index s key a b) tr = getTierDirectory s tr"
  by (simp add: moveTier_index_def Let_def split: option.splits)

lemma files_moveTier_index [simp]: "files (moveTier_index s key a b) = files s"
  by (simp add: moveTier_index_def Let_def split: option.splits)

lemma getTierDirectory_moveTier_local [simp]:
  "getTierDirectory (moveTier_local pf s key a b) tr = getTierDirectory s tr"
  by (simp add: moveTier_local_def)

lemma deduplicationMap_moveTier_local [simp]:
  "deduplicationMap (moveTier_local pf s key a b) = deduplicationMap s"
  by (simp add: moveTier_local_def)

lemma test_after_A_files: "files test_after_A ''/tmp/in'' = Some [1, 2, 3]"
  by code_simp

lemma test_after_A_index:
  "js_map_get (deduplicationMap test_after_A) (sha256_hex test_platform [1, 2, 3]) = Some ''warm/A''"
  by code_simp

lemma evictIfNeeded_empty_key:
  "fst (oldest_scan (memoryCache c) (None, None)) = Some [] \<Longrightarrow> evictIfNeeded c = c"
  by (subst evictIfNeeded.simps) simp



lemma quota_rows_profiles [simp]: "quota_rows (m\<lparr>profiles := ps\<rparr>) qt = quota_rows m qt"
  by (simp add: quota_rows_def)

lemma quota_rows_cacheManager [simp]: "quota_rows (m\<lparr>cacheManager := c\<rparr>) qt = quota_rows m qt"
  by (simp add: quota_rows_def)




lemma oldest_scan_result:
  "oldest_scan m (ko, t0) = (kr, tr) \<Longrightarrow>
     (case tr of
        None \<Rightarrow> m = [] \<and> t0 = None \<and> kr = ko
      | Some t \<Rightarrow>
          ((kr = ko \<and> tr = t0) \<or> (\<exists>k e. kr = Some k \<and> (k, e) \<in> set m \<and> expiresAt e = t))
          \<and> (\<forall>x \<in> set m. t \<le> expiresAt (snd x))
          \<and> (case t0 of None \<Rightarrow> True | Some t' \<Rightarrow> t \<le> t'))"
proof (induction m arbitrary: ko t0)
  case Nil
  then show ?case by (auto split: option.splits)
next
  case (Cons a m)
  obtain k e where a: "a = (k, e)" by (cases a)
  show ?case
  proof (cases "case t0 of None \<Rightarrow> True | Some t \<Rightarrow> expiresAt e < t")
    case True
    with Cons.prems a have "oldest_scan m (Some k, Some (expiresAt e)) = (kr, tr)" by simp
    from Cons.IH [OF this] True a show ?thesis
      by (auto split: option.splits)
  next
    case False
    with Cons.prems a have "oldest_scan m (ko, t0) = (kr, tr)" by simp
    from Cons.IH [OF this] False a show ?thesis
      by (auto split: option.splits)
  qed
qed

lemma oldest_scan_nonempty:
  assumes "m \<noteq> []"
  shows "\<exists>k e. fst (oldest_scan m (None, None)) = Some k \<and> (k, e) \<in> set m
           \<and> (\<forall>x \<in> set m. expiresAt e \<le> expiresAt (snd x))"
proof -
  obtain kr tr where r: "oldest_scan m (None, None) = (kr, tr)"
    by (cases "oldest_scan m (None, None)")
  from oldest_scan_result [OF r] assms show ?thesis
    using r by (auto split: option.splits)
qed

lemma evictIfNeeded_fields:
  "cacheEntries (evictIfNeeded c) = cacheEntries c \<and> maxMemoryMB (evictIfNeeded c) = maxMemoryMB c"
proof (induction c rule: evictIfNeeded.induct)
  case (1 c)
  show ?case
    apply (subst (1 2) evictIfNeeded.simps)
    using 1 by (auto split: option.splits)
qed

lemma js_map_get_mem:
  "(k, e) \<in> set m \<Longrightarrow> \<exists>e'. js_map_get m k = Some e'"
  by (cases "map_of m k") (auto simp: js_map_get_def map_of_eq_None_iff intro: rev_image_eqI)

lemma js_map_delete_keys: "fst ` set (js_map_delete k m) \<subseteq> fst ` set m"
  by (auto simp: js_map_delete_def)

lemma test_cache_two_evicted:
  "map fst (memoryCache (evictIfNeeded test_cache_two)) = [''a'']
   \<and> totalMemoryBytes (evictIfNeeded test_cache_two) = 600000
   \<and> evictions (evictIfNeeded test_cache_two) = 1"
  by code_simp

lemma sum_js_map_delete:
  assumes "distinct (map fst m)" "map_of m k = Some e"
  shows "sum_list (map (\<lambda>x. sizeBytes (snd x)) (js_map_delete k m))
           = sum_list (map (\<lambda>x. sizeBytes (snd x)) m) - sizeBytes e"
  using assms
proof (induction m)
  case Nil
  then show ?case by simp
next
  case (Cons a m)
  show ?case
  proof (cases "fst a = k")
    case True
    with Cons.prems have e: "snd a = e" by (cases a) auto
    from True Cons.prems have "k \<notin> fst ` set m" by auto
    then have "filter (\<lambda>x. fst x \<noteq> k) m = m" by (auto simp: filter_id_conv)
    with True e show ?thesis by (simp add: js_map_delete_def)
  next
    case False
    with Cons show ?thesis by (cases a) (auto simp: js_map_delete_def)
  qed
qed

lemma distinct_js_map_delete: "distinct (map fst m) \<Longrightarrow> distinct (map fst (js_map_delete k m))"
  by (simp add: js_map_delete_def distinct_map_filter)

lemma drift_evict_step:
  assumes "distinct (map fst (memoryCache c))" "js_map_get (memoryCache c) k = Some e"
  shows "drift (c\<lparr>totalMemoryBytes := totalMemoryBytes c - sizeBytes e,
                  memoryCache := js_map_delete k (memoryCache c),
                  evictions := n\<rparr>) = drift c"
  using sum_js_map_delete [OF assms(1), of k e] assms(2)
  by (simp add: drift_def tracked_sum_def js_map_get_def)

lemma drift_evictIfNeeded:
  "distinct (map fst (memoryCache c)) \<Longrightarrow>
     drift (evictIfNeeded c) = drift c \<and> distinct (map fst (memoryCache (evictIfNeeded c)))"
proof (induction c rule: evictIfNeeded.induct)
  case (1 c)
  show ?case
  proof (cases "totalMemoryBytes c > maxMemoryMB c * 1024 * 1024 \<and> length (memoryCache c) > 0")
    case False
    then have "evictIfNeeded c = c" by (subst evictIfNeeded.simps) simp
    with "1.prems" show ?thesis by simp
  next
    case True
    show ?thesis
    proof (cases "fst (oldest_scan (memoryCache c) (None, None))")
      case None
      with True have "evictIfNeeded c = c" by (subst evictIfNeeded.simps) simp
      with "1.prems" show ?thesis by simp
    next
      case (Some k)
      show ?thesis
      proof (cases "k = [] \<or> js_map_get (memoryCache c) k = None")
        case stop: True
        with True Some have "evictIfNeeded c = c" by (subst evictIfNeeded.simps) auto
        with "1.prems" show ?thesis by simp
      next
        case go: False
        then obtain e where g: "js_map_get (memoryCache c) k = Some e" and kne: "k \<noteq> []"
          by auto
        let ?c' = "c\<lparr>totalMemoryBytes := totalMemoryBytes c - sizeBytes e,
                    memoryCache := js_map_delete k (memoryCache c),
                    evictions := evictions c + 1\<rparr>"
        have step: "evictIfNeeded c = evictIfNeeded ?c'"
          using True Some kne g by (subst evictIfNeeded.simps) simp
        have d': "distinct (map fst (memoryCache ?c'))"
          using "1.prems" by (simp add: distinct_js_map_delete)
        from "1.IH" [OF True Some kne g d'] step drift_evict_step [OF "1.prems" g]
        show ?thesis by simp
      qed
    qed
  qed
qed

lemma map_of_js_map_delete: "k' \<noteq> k \<Longrightarrow> map_of (js_map_delete k m) k' = map_of m k'"
  by (induction m) (auto simp: js_map_delete_def)

lemma drift_cleanup_fold:
  assumes "distinct (map fst xs)" "distinct (map fst (memoryCache c))"
    and "\<forall>x \<in> set xs. map_of (memoryCache c) (fst x) = Some (snd x)"
  shows "drift (fold (\<lambda>(key, entry) c'.
                       if expiresAt entry < now
                       then c'\<lparr>totalMemoryBytes := totalMemoryBytes c' - sizeBytes entry,
                               memoryCache := js_map_delete key (memoryCache c')\<rparr>
                       else c') xs c) = drift c"
  using assms
proof (induction xs arbitrary: c)
  case Nil
  then show ?case by simp
next
  case (Cons x xs)
  obtain k e where x: "x = (k, e)" by (cases x)
  show ?case
  proof (cases "expiresAt e < now")
    case False
    with Cons x show ?thesis by simp
  next
    case True
    let ?c' = "c\<lparr>totalMemoryBytes := totalMemoryBytes c - sizeBytes e,
                  memoryCache := js_map_delete k (memoryCache c)\<rparr>"
    from Cons.prems x have g: "map_of (memoryCache c) k = Some e" by simp
    have dr: "drift ?c' = drift c"
      using sum_js_map_delete [OF Cons.prems(2) g] by (simp add: drift_def tracked_sum_def)
    have d1: "distinct (map fst xs)" using Cons.prems(1) by simp
    have d2: "distinct (map fst (memoryCache ?c'))"
      using Cons.prems(2) by (simp add: distinct_js_map_delete)
    have d3: "\<forall>y \<in> set xs. map_of (memoryCache ?c') (fst y) = Some (snd y)"
    proof
      fix y assume y: "y \<in> set xs"
      with Cons.prems(1) x have "fst y \<noteq> k" by force
      with y Cons.prems(3) show "map_of (memoryCache ?c') (fst y) = Some (snd y)"
        by (simp add: map_of_js_map_delete)
    qed
    from Cons.IH [OF d1 d2 d3] dr True x show ?thesis by simp
  qed
qed

section \<open>ObjectStorage: the compression ratio\<close>

text \<open>
  C2 (amended). For every call of \<open>store\<close> that writes an object, the returned
  \<open>compressionRatio\<close> is at most 1; it equals \<open>1 - compressedSize / originalSize\<close> when
  \<open>originalSize\<close> is positive and is \<open>0\<close> when \<open>originalSize\<close> is \<open>0\<close>; and it is
  non-negative exactly when \<open>originalSize\<close> is \<open>0\<close> or \<open>compressedSize\<close> does not exceed
  \<open>originalSize\<close>. \<open>compressedSize\<close> is the length of the compressed payload when
  \<open>compress\<close> is set and \<open>originalSize\<close> otherwise; the source does not clamp the
  quotient.
\<close>

theorem store_compressionRatio:
  assumes st: "store pf s iv key filePath opts = Inr (r, s')"
    and nd: "\<not> r_deduplicated r"
  shows "\<exists>ratio c.
           r_compressionRatio r = Some ratio \<and> r_compressedSize r = Some c
           \<and> ratio \<le> 1
           \<and> ratio = (if r_originalSize r > 0 then 1 - of_nat c / of_nat (r_originalSize r) else 0)
           \<and> (0 \<le> ratio) = (r_originalSize r = 0 \<or> c \<le> r_originalSize r)
           \<and> c = (if compress opts
                   then length (compressData pf s (the (files s filePath)) (compressionAlgorithm opts))
                   else r_originalSize r)"
  using st
proof (cases rule: store_Inr_cases)
  case (hit content)
  then obtain loc where "js_map_get (deduplicationMap s) (sha256_hex pf content) = Some loc"
    by (auto simp: js_map_has_def js_map_get_def)
  from store_hit [OF hit(1,2) this, of iv key] st nd show ?thesis by auto
next
  case (written content data)
  from store_written [OF written, of key] st
  have o: "r_originalSize r = length content"
    and c: "r_compressedSize r = Some (length (store_compress pf s opts content))"
    and q: "r_compressionRatio r =
                Some (if length content > 0
                      then 1 - of_nat (length (store_compress pf s opts content)) / of_nat (length content)
                      else 0)"
    by auto
  show ?thesis
  proof (cases "length content > 0")
    case True
    with o c q written(1) ratio_bounds [OF True, of "length (store_compress pf s opts content)"]
    show ?thesis by (auto simp: store_compress_def)
  next
    case False
    with o c q written(1) show ?thesis by (auto simp: store_compress_def)
  qed
qed

theorem store_compressionRatio_witness:
  "\<exists>r s'. store test_platform test_storage test_iv ''A'' ''/tmp/in'' test_options_no_key = Inr (r, s')
     \<and> \<not> r_deduplicated r
     \<and> r_compressionRatio r = Some 0 \<and> r_compressedSize r = Some 3 \<and> r_originalSize r = 3"
proof -
  obtain r s' where
    st: "store test_platform test_storage test_iv ''A'' ''/tmp/in'' test_options_no_key = Inr (r, s')"
    and nd: "\<not> r_deduplicated r" and o: "r_originalSize r = 3"
    by (simp add: store_def test_storage_def test_options_no_key_def store_encrypt_def
        store_compress_def truthy_def Let_def)
  have c: "\<not> compress test_options_no_key" by (simp add: test_options_no_key_def)
  from store_compressionRatio [OF st nd] o c st nd show ?thesis by auto
qed

text \<open>
  C2 as stated asks for \<open>0 \<le> compressionRatio\<close> on every input. A compressor that
  lengthens its input refutes it: the one-byte file, under the default options and a
  gzip that adds its eighteen bytes of header and trailer, is stored with
  \<open>compressedSize\<close> 19 and ratio \<open>- 18\<close>.
\<close>

theorem store_compressionRatio_negative:
  "map_option r_compressionRatio
     (result_of (store test_platform test_storage test_iv ''A'' ''/tmp/one''
                   (default_store_options test_storage)))
     = Some (Some (- 18))
   \<and> map_option r_originalSize
     (result_of (store test_platform test_storage test_iv ''A'' ''/tmp/one''
                   (default_store_options test_storage)))
     = Some 1
   \<and> map_option r_compressedSize
     (result_of (store test_platform test_storage test_iv ''A'' ''/tmp/one''
                   (default_store_options test_storage)))
     = Some (Some 19)
   \<and> \<not> (0 \<le> (- 18 :: rat))"
  by code_simp

section \<open>ObjectStorage: deduplication\<close>




section \<open>ObjectStorage: encrypt without a key\<close>

text \<open>
  C9 (amended). For every call of \<open>store\<close> with \<open>encrypt\<close> set and the encryption key
  \<open>null\<close> or absent, no encryption is performed. When the call writes (deduplication
  off or the payload not yet indexed), the bytes written to the tier are the payload,
  or its compressed form when \<open>compress\<close> is set, with no IV in front, and the returned
  object still has \<open>encrypted: true\<close>: the flag is the \<open>encrypt\<close> option. When the call
  is a deduplication hit, nothing is written and the returned object has no
  \<open>encrypted\<close> field.
\<close>

theorem store_encrypt_without_key:
  assumes enc: "encrypt opts"
    and nokey: "encryptionKey opts = None"
    and src: "files s filePath = Some P"
  shows "if enableDedup opts \<and> js_map_has (deduplicationMap s) (sha256_hex pf P)
         then (\<exists>r. store pf s iv key filePath opts = Inr (r, s)
                 \<and> r_deduplicated r \<and> r_encrypted r = None)
         else (\<exists>r s'. store pf s iv key filePath opts = Inr (r, s')
                 \<and> files s' (localCachePath pf s (tier opts) key)
                     = Some (if compress opts then compressData pf s P (compressionAlgorithm opts)
                             else P)
                 \<and> r_encrypted r = Some True
                 \<and> r_encrypted r = Some (encrypt opts))"
proof (cases "enableDedup opts \<and> js_map_has (deduplicationMap s) (sha256_hex pf P)")
  case True
  then obtain loc where idx: "js_map_get (deduplicationMap s) (sha256_hex pf P) = Some loc"
    by (auto simp: js_map_has_def js_map_get_def)
  from True have dd: "enableDedup opts" by simp
  from store_hit [OF src dd idx, of iv key] True show ?thesis by simp
next
  case False
  have e: "store_encrypt pf opts iv (store_compress pf s opts P) = Inr (store_compress pf s opts P)"
    using nokey by (simp add: store_encrypt_def truthy_def)
  from store_written [OF src False e, of key] enc False show ?thesis
    by (auto simp: store_compress_def)
qed

theorem store_encrypt_without_key_witness:
  "encrypt test_options_no_key
   \<and> encryptionKey test_options_no_key = None
   \<and> files test_storage ''/tmp/in'' = Some [1, 2, 3]
   \<and> (\<exists>r s'. store test_platform test_storage test_iv ''A'' ''/tmp/in'' test_options_no_key = Inr (r, s')
         \<and> files s' ''/data/warm/A'' = Some [1, 2, 3]
         \<and> r_encrypted r = Some True)
   \<and> encrypt test_options_no_key_dedup
   \<and> encryptionKey test_options_no_key_dedup = None
   \<and> files test_after_A ''/tmp/in'' = Some [1, 2, 3]
   \<and> (\<exists>r. store test_platform test_after_A test_iv ''B'' ''/tmp/in'' test_options_no_key_dedup
               = Inr (r, test_after_A)
         \<and> r_deduplicated r \<and> r_encrypted r = None)"
proof -
  have enc: "encrypt test_options_no_key" by (simp add: test_options_no_key_def)
  have nokey: "encryptionKey test_options_no_key = None" by (simp add: test_options_no_key_def)
  have src: "files test_storage ''/tmp/in'' = Some [1, 2, 3]" by (simp add: test_storage_def)
  have fresh: "\<not> (enableDedup test_options_no_key
      \<and> js_map_has (deduplicationMap test_storage) (sha256_hex test_platform [1, 2, 3]))"
    by (simp add: test_options_no_key_def)
  have p: "localCachePath test_platform test_storage (tier test_options_no_key) ''A'' = ''/data/warm/A''"
    by (simp add: localCachePath_def getTierDirectory_def test_platform_def test_storage_def
        test_options_no_key_def posix_join_def)
  have c: "compress test_options_no_key = False" by (simp add: test_options_no_key_def)
  have w: "\<exists>r s'. store test_platform test_storage test_iv ''A'' ''/tmp/in'' test_options_no_key = Inr (r, s')
         \<and> files s' ''/data/warm/A'' = Some [1, 2, 3]
         \<and> r_encrypted r = Some True"
    using store_encrypt_without_key [OF enc nokey src, of test_platform test_iv "''A''"] fresh p c
    by auto
  have enc2: "encrypt test_options_no_key_dedup"
    by (simp add: test_options_no_key_dedup_def test_options_no_key_def)
  have nokey2: "encryptionKey test_options_no_key_dedup = None"
    by (simp add: test_options_no_key_dedup_def test_options_no_key_def)
  have hit: "enableDedup test_options_no_key_dedup
      \<and> js_map_has (deduplicationMap test_after_A) (sha256_hex test_platform [1, 2, 3])"
    using test_after_A_index
    by (simp add: test_options_no_key_dedup_def js_map_has_def js_map_get_def)
  have h: "\<exists>r. store test_platform test_after_A test_iv ''B'' ''/tmp/in'' test_options_no_key_dedup
               = Inr (r, test_after_A)
         \<and> r_deduplicated r \<and> r_encrypted r = None"
    using store_encrypt_without_key [OF enc2 nokey2 test_after_A_files, of test_platform test_iv "''B''"]
      hit by simp
  from w h enc nokey src enc2 nokey2 test_after_A_files show ?thesis by blast
qed

text \<open>
  C9 as stated has every such call report \<open>encrypted: true\<close>. With the payload already
  indexed and deduplication on, the call with \<open>encrypt\<close> set and no key returns the
  reference object of a deduplication hit, which has no \<open>encrypted\<close> field.
\<close>

theorem store_dedup_hit_no_encrypted_flag:
  "encrypt test_options_no_key_dedup
   \<and> encryptionKey test_options_no_key_dedup = None
   \<and> map_option r_deduplicated
        (result_of (store test_platform test_after_A test_iv ''B'' ''/tmp/in''
                      test_options_no_key_dedup)) = Some True
   \<and> map_option r_encrypted
        (result_of (store test_platform test_after_A test_iv ''B'' ''/tmp/in''
                      test_options_no_key_dedup)) = Some None"
  by code_simp

section \<open>ObjectStorage: delete\<close>




section \<open>ObjectStorage: what a failed store leaves behind\<close>




section \<open>ObjectStorage: moveTier and a reader\<close>

text \<open>
  C8 (amended). JavaScript runs an \<open>async\<close> function without interruption between its
  \<open>await\<close>s, so a \<open>retrieve\<close> that runs while \<open>moveTier\<close> is in flight reads the files
  of one of three states: before the \<open>rename\<close>, between the \<open>rename\<close> and the index
  update, or after both. For an object present in the source tier whose two paths
  differ: \<open>moveTier\<close> relocates it by one \<open>rename\<close> (no copy, no delete) and then
  updates the index entry to the new location; from the \<open>rename\<close> on, the bytes are at
  the destination path and not at the source path; \<open>retrieve\<close> addressed to the
  destination tier then answers what \<open>retrieve\<close> addressed to the source tier answered
  before the move; and \<open>retrieve\<close> addressed to the source tier fails with the
  not-found error.
\<close>

theorem moveTier_renames:
  assumes f: "files s (localCachePath pf s fromTier (baseKey_of key)) = Some d"
    and ne: "localCachePath pf s fromTier (baseKey_of key) \<noteq> localCachePath pf s toTier (baseKey_of key)"
  shows "moveTier_fs_calls pf s key fromTier toTier =
           [Mkdir (path_dirname pf (localCachePath pf s toTier (baseKey_of key))),
            Rename (localCachePath pf s fromTier (baseKey_of key))
                   (localCachePath pf s toTier (baseKey_of key))]
         \<and> fst (moveTier pf s key fromTier toTier) = toTier @ CHR ''/'' # baseKey_of key
         \<and> files (moveTier_local pf s key fromTier toTier)
              (localCachePath pf s toTier (baseKey_of key)) = Some d
         \<and> files (moveTier_local pf s key fromTier toTier)
              (localCachePath pf s fromTier (baseKey_of key)) = None
         \<and> files (snd (moveTier pf s key fromTier toTier))
              = files (moveTier_local pf s key fromTier toTier)
         \<and> retrieve pf (moveTier_local pf s key fromTier toTier) key toTier ropts
              = retrieve pf s key fromTier ropts
         \<and> retrieve pf (snd (moveTier pf s key fromTier toTier)) key toTier ropts
              = retrieve pf s key fromTier ropts
         \<and> retrieve pf (moveTier_local pf s key fromTier toTier) key fromTier ropts
              = Inl (FileNotFoundInLocalStorage (baseKey_of key))
         \<and> retrieve pf (snd (moveTier pf s key fromTier toTier)) key fromTier ropts
              = Inl (FileNotFoundInLocalStorage (baseKey_of key))
         \<and> (\<forall>h. first_hash_with_path (fromTier @ CHR ''/'' # baseKey_of key) (deduplicationMap s) = Some h
               \<longrightarrow> js_map_get (deduplicationMap (snd (moveTier pf s key fromTier toTier))) h
                     = Some (toTier @ CHR ''/'' # baseKey_of key))"
proof -
  let ?from = "localCachePath pf s fromTier (baseKey_of key)"
  let ?to = "localCachePath pf s toTier (baseKey_of key)"
  let ?mid = "moveTier_local pf s key fromTier toTier"
  let ?fin = "snd (moveTier pf s key fromTier toTier)"
  have calls: "moveTier_fs_calls pf s key fromTier toTier = [Mkdir (path_dirname pf ?to), Rename ?from ?to]"
    by (simp add: moveTier_fs_calls_def Let_def)
  have fm: "files ?mid = ((files s)(?from := None))(?to \<mapsto> d)"
    using f by (simp add: moveTier_local_def calls)
  have ff: "files ?fin = files ?mid" by (simp add: moveTier_def)
  have pm: "\<And>t. localCachePath pf ?mid t (baseKey_of key) = localCachePath pf s t (baseKey_of key)"
    by (simp add: localCachePath_def)
  have pf': "\<And>t. localCachePath pf ?fin t (baseKey_of key) = localCachePath pf s t (baseKey_of key)"
    by (simp add: localCachePath_def moveTier_def)
  have r1: "retrieve pf ?mid key toTier ropts = retrieve pf s key fromTier ropts"
    using f by (simp add: retrieve_def Let_def pm fm)
  have r2: "retrieve pf ?fin key toTier ropts = retrieve pf s key fromTier ropts"
    using f by (simp add: retrieve_def Let_def pf' ff fm)
  have r3: "retrieve pf ?mid key fromTier ropts = Inl (FileNotFoundInLocalStorage (baseKey_of key))"
    using ne by (simp add: retrieve_def Let_def pm fm)
  have r4: "retrieve pf ?fin key fromTier ropts = Inl (FileNotFoundInLocalStorage (baseKey_of key))"
    using ne by (simp add: retrieve_def Let_def pf' ff fm)
  have ix: "\<forall>h. first_hash_with_path (fromTier @ CHR ''/'' # baseKey_of key) (deduplicationMap s) = Some h
               \<longrightarrow> js_map_get (deduplicationMap ?fin) h = Some (toTier @ CHR ''/'' # baseKey_of key)"
    by (simp add: moveTier_def moveTier_index_def Let_def js_map_get_set)
  have k: "fst (moveTier pf s key fromTier toTier) = toTier @ CHR ''/'' # baseKey_of key"
    by (simp add: moveTier_def)
  from calls k fm ff r1 r2 r3 r4 ix ne show ?thesis by simp
qed

theorem moveTier_renames_witness:
  "localCachePath test_platform test_hot ''hot'' (baseKey_of ''hot/A'')
     \<noteq> localCachePath test_platform test_hot ''warm'' (baseKey_of ''hot/A'')
   \<and> files test_hot (localCachePath test_platform test_hot ''hot'' (baseKey_of ''hot/A'')) \<noteq> None
   \<and> first_hash_with_path (''hot'' @ CHR ''/'' # baseKey_of ''hot/A'') (deduplicationMap test_hot)
       = Some ''bcd''
   \<and> files test_mid_move (localCachePath test_platform test_hot ''warm'' (baseKey_of ''hot/A''))
       = files test_hot (localCachePath test_platform test_hot ''hot'' (baseKey_of ''hot/A''))
   \<and> files test_mid_move (localCachePath test_platform test_hot ''hot'' (baseKey_of ''hot/A'')) = None
   \<and> retrieve test_platform test_mid_move ''hot/A'' ''warm'' test_retrieve_options
       = retrieve test_platform test_hot ''hot/A'' ''hot'' test_retrieve_options
   \<and> retrieve test_platform test_mid_move ''hot/A'' ''hot'' test_retrieve_options
       = Inl (FileNotFoundInLocalStorage (baseKey_of ''hot/A''))
   \<and> js_map_get (deduplicationMap (snd (moveTier test_platform test_hot ''hot/A'' ''hot'' ''warm'')))
         ''bcd''
       = Some (''warm'' @ CHR ''/'' # baseKey_of ''hot/A'')"
proof -
  have ne: "localCachePath test_platform test_hot ''hot'' (baseKey_of ''hot/A'')
     \<noteq> localCachePath test_platform test_hot ''warm'' (baseKey_of ''hot/A'')"
    by code_simp
  have "files test_hot (localCachePath test_platform test_hot ''hot'' (baseKey_of ''hot/A'')) \<noteq> None"
    by code_simp
  then obtain d where
    f: "files test_hot (localCachePath test_platform test_hot ''hot'' (baseKey_of ''hot/A'')) = Some d"
    by blast
  have h: "first_hash_with_path (''hot'' @ CHR ''/'' # baseKey_of ''hot/A'') (deduplicationMap test_hot)
       = Some ''bcd''"
    by code_simp
  from moveTier_renames [OF f ne, of test_retrieve_options]
  show ?thesis using f ne h unfolding test_mid_move_def by simp
qed

text \<open>
  C8 as stated has no reader ever fail with the not-found error. A reader that was
  handed the hot tier gets the payload before the move; in the state between the
  \<open>rename\<close> and the index update, and after the move, the same call fails with the
  not-found error. A reader handed the warm tier fails before the \<open>rename\<close> and
  succeeds after it.
\<close>

theorem moveTier_reader_not_found:
  "moveTier_fs_calls test_platform test_hot ''hot/A'' ''hot'' ''warm''
     = [Mkdir ''/data/warm'', Rename ''/data/hot/A'' ''/data/warm/A'']
   \<and> retrieve test_platform test_hot ''hot/A'' ''hot'' test_retrieve_options = Inr [1, 2, 3]
   \<and> retrieve test_platform test_mid_move ''hot/A'' ''hot'' test_retrieve_options
     = Inl (FileNotFoundInLocalStorage ''A'')
   \<and> retrieve test_platform (snd (moveTier test_platform test_hot ''hot/A'' ''hot'' ''warm''))
        ''hot/A'' ''hot'' test_retrieve_options
     = Inl (FileNotFoundInLocalStorage ''A'')
   \<and> retrieve test_platform test_hot ''hot/A'' ''warm'' test_retrieve_options
     = Inl (FileNotFoundInLocalStorage ''A'')
   \<and> retrieve test_platform test_mid_move ''hot/A'' ''warm'' test_retrieve_options = Inr [1, 2, 3]"
  by code_simp

section \<open>CacheManager: eviction\<close>

text \<open>
  C7. Eviction removes the entry with the smallest \<open>expiresAt\<close> until the tracked total
  is within the budget or the map is empty. The source tests the selected key with
  \<open>if (oldestKey)\<close>, which is false for the empty string, so the loop breaks when the
  entry to evict has the key \<open>""\<close>. With a budget of one megabyte, \<open>set("", v)\<close> for a
  value of two million bytes returns with the tracked total at 2000000, above the
  1048576 of the budget, the entry still in the map and no eviction counted.
\<close>

theorem evictIfNeeded_stops_at_empty_key:
  "totalMemoryBytes test_cache_empty_key = 2000000
   \<and> maxMemoryMB test_cache_empty_key * 1024 * 1024 = 1048576
   \<and> map fst (memoryCache test_cache_empty_key) = ['''']
   \<and> evictions test_cache_empty_key = 0"
proof -
  let ?c = "(new_CacheManager (Some 1) None)
      \<lparr>memoryCache := [('''', \<lparr>e_value = replicate 2000000 (CHR ''1''),
                               expiresAt = 1000 + 3600000, sizeBytes = 2000000\<rparr>)],
       totalMemoryBytes := 2000000\<rparr>"
  have "fst (oldest_scan (memoryCache ?c) (None, None)) = Some []" by simp
  then have e: "evictIfNeeded ?c = ?c" by (rule evictIfNeeded_empty_key)
  have eq: "test_cache_empty_key =
          ?c\<lparr>cacheEntries := [\<lparr>row_key = '''', row_value = replicate 2000000 (CHR ''1''),
                                 row_expiresAt = Some (1000 + 3600000), row_hitCount = Some 0,
                                 row_lastAccessedAt = Some 1000, row_sizeBytes = Some 2000000\<rparr>]\<rparr>"
    unfolding test_cache_empty_key_def CacheManager_set_def Let_def
    using e by (simp add: new_CacheManager_def num_or_def)
  show ?thesis unfolding eq by (simp add: new_CacheManager_def num_or_def)
qed

text \<open>
  Apart from the empty key the loop does what is asked of it: for a map without the
  empty key, \<open>evictIfNeeded\<close> returns with the tracked total within the budget or
  with the map empty, and it leaves the durable layer as it was.
\<close>

theorem evictIfNeeded_nonempty_keys:
  assumes "[] \<notin> fst ` set (memoryCache c)"
  shows "(totalMemoryBytes (evictIfNeeded c) \<le> maxMemoryMB c * 1024 * 1024
            \<or> memoryCache (evictIfNeeded c) = [])
         \<and> cacheEntries (evictIfNeeded c) = cacheEntries c"
proof -
  have "totalMemoryBytes (evictIfNeeded c) \<le> maxMemoryMB c * 1024 * 1024
            \<or> memoryCache (evictIfNeeded c) = []"
    using assms
  proof (induction c rule: evictIfNeeded.induct)
    case (1 c)
    show ?case
    proof (cases "totalMemoryBytes c > maxMemoryMB c * 1024 * 1024 \<and> length (memoryCache c) > 0")
      case False
      then have "evictIfNeeded c = c" by (subst evictIfNeeded.simps) simp
      with False show ?thesis by auto
    next
      case True
      then have ne: "memoryCache c \<noteq> []" by auto
      from oldest_scan_nonempty [OF ne]
      obtain k e where k: "fst (oldest_scan (memoryCache c) (None, None)) = Some k"
        and mem: "(k, e) \<in> set (memoryCache c)" by blast
      from mem "1.prems" have kne: "k \<noteq> []" by force
      from js_map_get_mem [OF mem] obtain e' where g: "js_map_get (memoryCache c) k = Some e'"
        by blast
      let ?c' = "c\<lparr>totalMemoryBytes := totalMemoryBytes c - sizeBytes e',
                    memoryCache := js_map_delete k (memoryCache c),
                    evictions := evictions c + 1\<rparr>"
      have step: "evictIfNeeded c = evictIfNeeded ?c'"
        using True k kne g by (subst evictIfNeeded.simps) simp
      have keys: "[] \<notin> fst ` set (memoryCache ?c')"
        using "1.prems" js_map_delete_keys [of k "memoryCache c"] by auto
      from "1.IH" [OF True k kne g keys] step show ?thesis by simp
    qed
  qed
  with evictIfNeeded_fields [of c] show ?thesis by simp
qed

theorem evictIfNeeded_nonempty_keys_witness:
  "[] \<notin> fst ` set (memoryCache test_cache_two)
   \<and> totalMemoryBytes test_cache_two > maxMemoryMB test_cache_two * 1024 * 1024
   \<and> totalMemoryBytes (evictIfNeeded test_cache_two) \<le> maxMemoryMB test_cache_two * 1024 * 1024
   \<and> map fst (memoryCache (evictIfNeeded test_cache_two)) = [''a'']
   \<and> cacheEntries (evictIfNeeded test_cache_two) = cacheEntries test_cache_two"
proof -
  have k: "[] \<notin> fst ` set (memoryCache test_cache_two)"
    by (simp add: test_cache_two_def)
  have o: "totalMemoryBytes test_cache_two > maxMemoryMB test_cache_two * 1024 * 1024"
    by (simp add: test_cache_two_def new_CacheManager_def num_or_def)
  have m: "maxMemoryMB test_cache_two * 1024 * 1024 = 1048576"
    by (simp add: test_cache_two_def new_CacheManager_def num_or_def)
  from evictIfNeeded_nonempty_keys [OF k] test_cache_two_evicted k o m
  show ?thesis by simp
qed

text \<open>
  Each round of the loop removes an entry whose \<open>expiresAt\<close> is the smallest in the
  map, subtracts its size from the tracked total and counts one eviction.
\<close>

theorem evictIfNeeded_evicts_soonest:
  assumes "totalMemoryBytes c > maxMemoryMB c * 1024 * 1024" and "memoryCache c \<noteq> []"
    and "[] \<notin> fst ` set (memoryCache c)" and "distinct (map fst (memoryCache c))"
  shows "\<exists>k e. (k, e) \<in> set (memoryCache c)
           \<and> (\<forall>x \<in> set (memoryCache c). expiresAt e \<le> expiresAt (snd x))
           \<and> evictIfNeeded c =
               evictIfNeeded (c\<lparr>totalMemoryBytes := totalMemoryBytes c - sizeBytes e,
                                 memoryCache := js_map_delete k (memoryCache c),
                                 evictions := evictions c + 1\<rparr>)"
proof -
  from oldest_scan_nonempty [OF assms(2)]
  obtain k e where k: "fst (oldest_scan (memoryCache c) (None, None)) = Some k"
    and mem: "(k, e) \<in> set (memoryCache c)"
    and least: "\<forall>x \<in> set (memoryCache c). expiresAt e \<le> expiresAt (snd x)" by blast
  from mem assms(3) have kne: "k \<noteq> []" by force
  have g: "js_map_get (memoryCache c) k = Some e"
    using mem assms(4) by (simp add: js_map_get_def)
  have "evictIfNeeded c =
          evictIfNeeded (c\<lparr>totalMemoryBytes := totalMemoryBytes c - sizeBytes e,
                            memoryCache := js_map_delete k (memoryCache c),
                            evictions := evictions c + 1\<rparr>)"
    using assms(1,2) k kne g by (subst evictIfNeeded.simps) simp
  with mem least show ?thesis by blast
qed

theorem evictIfNeeded_evicts_soonest_witness:
  "totalMemoryBytes test_cache_two > maxMemoryMB test_cache_two * 1024 * 1024
   \<and> memoryCache test_cache_two \<noteq> []
   \<and> [] \<notin> fst ` set (memoryCache test_cache_two)
   \<and> distinct (map fst (memoryCache test_cache_two))
   \<and> (\<exists>k e. (k, e) \<in> set (memoryCache test_cache_two)
         \<and> (\<forall>x \<in> set (memoryCache test_cache_two). expiresAt e \<le> expiresAt (snd x))
         \<and> evictIfNeeded test_cache_two =
             evictIfNeeded (test_cache_two\<lparr>totalMemoryBytes := totalMemoryBytes test_cache_two - sizeBytes e,
                               memoryCache := js_map_delete k (memoryCache test_cache_two),
                               evictions := evictions test_cache_two + 1\<rparr>))"
proof -
  have o: "totalMemoryBytes test_cache_two > maxMemoryMB test_cache_two * 1024 * 1024"
    by (simp add: test_cache_two_def new_CacheManager_def num_or_def)
  have ne: "memoryCache test_cache_two \<noteq> []" by (simp add: test_cache_two_def)
  have k: "[] \<notin> fst ` set (memoryCache test_cache_two)"
    by (simp add: test_cache_two_def)
  have d: "distinct (map fst (memoryCache test_cache_two))" by (simp add: test_cache_two_def)
  from evictIfNeeded_evicts_soonest [OF o ne k d] o ne k d show ?thesis by blast
qed

section \<open>CacheManager: the tracked total\<close>

text \<open>
  C10. \<open>stats.totalMemoryBytes\<close> should equal the sum of \<open>sizeBytes\<close> over the entries
  of \<open>memoryCache\<close>. \<open>evictIfNeeded\<close> and \<open>cleanupExpired\<close> subtract the size of each
  entry they remove, and \<open>clear\<close> resets the total; \<open>delete\<close> removes the entry and
  leaves the total, and \<open>set\<close> on a key that is present adds the new size without
  subtracting the old one. After \<open>set("a", 42)\<close> and \<open>delete("a")\<close> the map is empty
  and the total is 2; after two \<open>set("a", 42)\<close> the map holds 2 bytes and the total is 4.
\<close>

theorem delete_keeps_totalMemoryBytes:
  "totalMemoryBytes test_cache_after_delete = 2
   \<and> memoryCache test_cache_after_delete = []
   \<and> tracked_sum test_cache_after_delete = 0
   \<and> totalMemoryBytes test_cache_set_twice = 4
   \<and> tracked_sum test_cache_set_twice = 2"
  by code_simp

text \<open>
  The removals that do subtract: \<open>evictIfNeeded\<close> and \<open>cleanupExpired\<close> leave the
  difference between the tracked total and the sum of the sizes as it was, and \<open>clear\<close>
  makes it \<open>0\<close>.
\<close>

theorem removals_keep_drift:
  assumes "distinct (map fst (memoryCache c))"
  shows "drift (evictIfNeeded c) = drift c
         \<and> drift (cleanupExpired c now) = drift c
         \<and> drift (CacheManager_clear c) = 0"
proof -
  have all: "\<forall>x \<in> set (memoryCache c). map_of (memoryCache c) (fst x) = Some (snd x)"
    using assms by auto
  have "drift (cleanupExpired c now) = drift c"
    using drift_cleanup_fold [OF assms assms all, of now]
    by (simp add: cleanupExpired_def Let_def drift_def tracked_sum_def)
  moreover have "drift (CacheManager_clear c) = 0"
    by (simp add: CacheManager_clear_def drift_def tracked_sum_def)
  ultimately show ?thesis using drift_evictIfNeeded [OF assms] by simp
qed

theorem removals_keep_drift_witness:
  "distinct (map fst (memoryCache test_cache_two))
   \<and> drift test_cache_two = 0
   \<and> drift (evictIfNeeded test_cache_two) = 0
   \<and> drift (cleanupExpired test_cache_two 4) = 0
   \<and> drift (CacheManager_clear test_cache_two) = 0"
proof -
  have d: "distinct (map fst (memoryCache test_cache_two))" by (simp add: test_cache_two_def)
  have z: "drift test_cache_two = 0"
    by (simp add: drift_def tracked_sum_def test_cache_two_def)
  from removals_keep_drift [OF d] d z show ?thesis by simp
qed

section \<open>StorageManager: the profile quota\<close>



end
